theory Spec2Isabelle
  imports Complex_Main
begin

section \<open>Data model\<close>

text \<open>
  The detectors of \<^verbatim>\<open>src/main.py\<close> work on a pandas DataFrame: an ordered sequence of
  named columns over one shared row index \<open>0, 1, ..., n - 1\<close>. A column is either numeric
  (dtype int64 or float64, what \<^verbatim>\<open>select_dtypes(include=[np.number])\<close> keeps) or not
  (dtype object, the strings of a CSV file). An absent entry (NaN, None) is \<open>None\<close>.
  Floating-point numbers are idealised as reals; the one place where the non-finite
  floats matter, the parameter \<^verbatim>\<open>z_thresh\<close>, has a type of its own below.
\<close>

datatype column = Numeric "real option list" | Object "string option list"

type_synonym table = "(string \<times> column) list"

datatype cell = Num real | Str string

fun cells :: "column \<Rightarrow> cell option list" where
  "cells (Numeric vs) = map (map_option Num) vs"
| "cells (Object vs) = map (map_option Str) vs"

text \<open>\<^verbatim>\<open>len(data)\<close>: the length of the row index.\<close>

definition row_count :: "table \<Rightarrow> nat" where
  "row_count data = (case data of [] \<Rightarrow> 0 | (_, c) # _ \<Rightarrow> length (cells c))"

text \<open>
  What a DataFrame guarantees by construction (and \<^verbatim>\<open>read_csv\<close> for the names):
  distinct column names, every column as long as the row index.
\<close>

definition wf_table :: "table \<Rightarrow> bool" where
  "wf_table data \<longleftrightarrow>
     distinct (map fst data) \<and> list_all (\<lambda>(name, c). length (cells c) = row_count data) data"

text \<open>
  The failure the detectors could report. No statement of \<^verbatim>\<open>check_missing_values\<close>,
  \<^verbatim>\<open>check_duplicates\<close>, \<^verbatim>\<open>check_outliers\<close> or \<^verbatim>\<open>generate_report\<close> raises, so each of
  them returns on the \<open>Inr\<close> side.
\<close>

datatype error = InvalidParameter

section \<open>check_missing_values\<close>

definition isnull :: "'a option \<Rightarrow> bool" where
  "isnull c \<longleftrightarrow> c = None"

text \<open>\<^verbatim>\<open>data.isnull().sum()\<close>: per column, in column order, the number of absent cells.\<close>

definition null_sum :: "column \<Rightarrow> nat" where
  "null_sum c = length (filter isnull (cells c))"

definition check_missing_values :: "table \<Rightarrow> error + (string \<times> nat) list" where
  "check_missing_values data = Inr (map (\<lambda>(name, c). (name, null_sum c)) data)"

section \<open>check_duplicates\<close>

text \<open>The rows of the frame, each the tuple of its cells in column order.\<close>

definition iterrows :: "table \<Rightarrow> cell option list list" where
  "iterrows data = map (\<lambda>i. map (\<lambda>(name, c). cells c ! i) data) [0..<row_count data]"

text \<open>
  \<^verbatim>\<open>DataFrame.duplicated\<close> compares the factorised codes of the cells; all absent
  entries of a column share one code, so two absent cells match.
\<close>

fun same_cell :: "cell option \<Rightarrow> cell option \<Rightarrow> bool" where
  "same_cell None None = True"
| "same_cell (Some (Num x)) (Some (Num y)) = (x = y)"
| "same_cell (Some (Str s)) (Some (Str t)) = (s = t)"
| "same_cell _ _ = False"

definition same_row :: "cell option list \<Rightarrow> cell option list \<Rightarrow> bool" where
  "same_row r s \<longleftrightarrow> list_all2 same_cell r s"

text \<open>
  \<^verbatim>\<open>duplicated(keep='first')\<close>: scanning in row order, a row is marked when a row seen
  before matches it.
\<close>

fun duplicated_scan :: "cell option list list \<Rightarrow> cell option list list \<Rightarrow> bool list" where
  "duplicated_scan seen [] = []"
| "duplicated_scan seen (r # rs) =
     (if list_ex (same_row r) seen then True # duplicated_scan seen rs
      else False # duplicated_scan (r # seen) rs)"

definition duplicated :: "table \<Rightarrow> bool list" where
  "duplicated data = duplicated_scan [] (iterrows data)"

definition check_duplicates :: "table \<Rightarrow> error + nat" where
  "check_duplicates data = Inr (length (filter id (duplicated data)))"

section \<open>check_outliers\<close>

text \<open>
  A Series: values with their index labels. \<^verbatim>\<open>data[col]\<close> carries the frame's row index,
  \<^verbatim>\<open>dropna\<close> keeps the labels of the entries it keeps, and \<^verbatim>\<open>stats.zscore\<close> starts with
  \<^verbatim>\<open>np.asanyarray\<close>, which keeps the values only.
\<close>

definition getitem :: "real option list \<Rightarrow> (nat \<times> real option) list" where
  "getitem vs = zip [0..<length vs] vs"

fun dropna :: "(nat \<times> real option) list \<Rightarrow> (nat \<times> real) list" where
  "dropna [] = []"
| "dropna ((i, None) # s) = dropna s"
| "dropna ((i, Some v) # s) = (i, v) # dropna s"

definition asanyarray :: "(nat \<times> real) list \<Rightarrow> real list" where
  "asanyarray s = map snd s"

text \<open>
  numpy and scipy compute the scores in float64. The three definitions that follow compute
  them in exact arithmetic: that is the float64 result wherever no operation rounds (sums,
  squares and quotients of small integers with a deviation that is a small integer, as in
  the worked examples of this theory), and only an approximation of it elsewhere. They are
  evaluated in the worked examples only; what is proved about \<^verbatim>\<open>check_outliers\<close> for every
  table holds whatever the scores are.
\<close>

definition mean :: "real list \<Rightarrow> real" where
  "mean xs = sum_list xs / real (length xs)"

text \<open>\<^verbatim>\<open>a.std(ddof=0)\<close>, the default of \<^verbatim>\<open>stats.zscore\<close>: the divisor is the length.\<close>

definition std :: "real list \<Rightarrow> real" where
  "std xs = sqrt (sum_list (map (\<lambda>x. (x - mean xs)\<^sup>2) xs) / real (length xs))"

text \<open>
  \<^verbatim>\<open>stats.zscore(a)\<close>: the empty array is returned as it is; an array without deviation
  gets the score NaN (\<open>None\<close>) everywhere, \<open>0 / 0\<close>. In exact arithmetic that is deviation
  zero; on floats scipy decides it by the computed deviation, which rounding can make
  nonzero for identical values and which newer releases compare with a relative cut-off.
\<close>

definition zscore :: "real list \<Rightarrow> real option list" where
  "zscore xs =
     (if xs = [] then []
      else if std xs = 0 then map (\<lambda>x. None) xs
      else map (\<lambda>x. Some ((x - mean xs) / std xs)) xs)"

definition np_abs :: "real option list \<Rightarrow> real option list" where
  "np_abs zs = map (map_option abs) zs"

text \<open>A Python float as the parameter \<^verbatim>\<open>z_thresh\<close> can be.\<close>

datatype pyfloat = Finite real | PosInf | NegInf | NaN

text \<open>\<^verbatim>\<open>z > z_thresh\<close> elementwise; a comparison with NaN on either side is False.\<close>

fun np_gt :: "real option \<Rightarrow> pyfloat \<Rightarrow> bool" where
  "np_gt None t = False"
| "np_gt (Some z) (Finite t) = (z > t)"
| "np_gt (Some z) PosInf = False"
| "np_gt (Some z) NegInf = True"
| "np_gt (Some z) NaN = False"

text \<open>\<^verbatim>\<open>np.where(mask)[0]\<close>: the positions of the condition that hold True, ascending.\<close>

definition np_where :: "bool list \<Rightarrow> nat list" where
  "np_where condition = filter (\<lambda>i. condition ! i) [0..<length condition]"

text \<open>Lines 72 and 73 of the source, for one numeric column.\<close>

definition outlier_indices :: "pyfloat \<Rightarrow> real option list \<Rightarrow> nat list" where
  "outlier_indices z_thresh vs =
     (let z_scores = np_abs (zscore (asanyarray (dropna (getitem vs))))
      in np_where (map (\<lambda>z. np_gt z z_thresh) z_scores))"

text \<open>
  The reduced sequence of a column: its values without the absent entries, in order, as
  \<^verbatim>\<open>stats.zscore\<close> receives them.
\<close>

abbreviation reduced_sequence :: "real option list \<Rightarrow> real list" where
  "reduced_sequence vs \<equiv> asanyarray (dropna (getitem vs))"

fun select_dtypes_number :: "table \<Rightarrow> (string \<times> real option list) list" where
  "select_dtypes_number [] = []"
| "select_dtypes_number ((name, Numeric vs) # data) = (name, vs) # select_dtypes_number data"
| "select_dtypes_number ((name, Object vs) # data) = select_dtypes_number data"

text \<open>
  The dict \<^verbatim>\<open>outliers\<close> in insertion order; \<^verbatim>\<open>outliers[col] = ...\<close> replaces the value of
  a key that is there and appends a new key at the end.
\<close>

type_synonym outlier_report = "(string \<times> nat list) list"

fun setitem :: "string \<Rightarrow> nat list \<Rightarrow> outlier_report \<Rightarrow> outlier_report" where
  "setitem k v [] = [(k, v)]"
| "setitem k v ((k', v') # d) = (if k' = k then (k, v) # d else (k', v') # setitem k v d)"

fun outliers_loop ::
  "pyfloat \<Rightarrow> (string \<times> real option list) list \<Rightarrow> outlier_report \<Rightarrow> outlier_report" where
  "outliers_loop z_thresh [] outliers = outliers"
| "outliers_loop z_thresh ((col, vs) # rest) outliers =
     (let idx = outlier_indices z_thresh vs
      in outliers_loop z_thresh rest
           (if length idx > 0 then setitem col idx outliers else outliers))"

definition check_outliers :: "pyfloat \<Rightarrow> table \<Rightarrow> error + outlier_report" where
  "check_outliers z_thresh data = Inr (outliers_loop z_thresh (select_dtypes_number data) [])"

section \<open>generate_report\<close>

text \<open>\<^verbatim>\<open>str\<close> of a non-negative integer, and of a list of them.\<close>

definition digit :: "nat \<Rightarrow> char" where
  "digit d = ''0123456789'' ! d"

fun str_nat :: "nat \<Rightarrow> string" where
  "str_nat n = (if n < 10 then [digit n] else str_nat (n div 10) @ [digit (n mod 10)])"

fun join_comma :: "string list \<Rightarrow> string" where
  "join_comma [] = []"
| "join_comma [s] = s"
| "join_comma (s # t # ss) = s @ '', '' @ join_comma (t # ss)"

definition str_list :: "nat list \<Rightarrow> string" where
  "str_list xs = ''['' @ join_comma (map str_nat xs) @ '']''"

definition outlier_line :: "string \<times> nat list \<Rightarrow> string" where
  "outlier_line e =
     (case e of (col, indices) \<Rightarrow>
        col @ '': '' @ str_nat (length indices) @ '' outliers at indices '' @ str_list indices
          @ ''\<newline>'')"

text \<open>
  The rendering of the missing-value Series, \<^verbatim>\<open>Series.to_string\<close> of pandas, is a
  parameter: the report is built around whatever text it returns.
\<close>

definition generate_report ::
  "((string \<times> nat) list \<Rightarrow> string) \<Rightarrow> (string \<times> nat) list \<Rightarrow> nat \<Rightarrow> outlier_report
     \<Rightarrow> error + string" where
  "generate_report to_string missing_values duplicate_count outliers =
     Inr (''Data Integrity Report\<newline>''
        @ ''=====================\<newline>''
        @ ''Missing Values:\<newline>''
        @ to_string missing_values @ ''\<newline>\<newline>''
        @ ''Duplicate Rows: '' @ str_nat duplicate_count @ ''\<newline>\<newline>''
        @ ''Outliers:\<newline>''
        @ concat (map outlier_line outliers))"

section \<open>Properties of the missing-value and duplicate detectors\<close>

lemma same_cell_eq: "same_cell a b \<longleftrightarrow> a = b"
  by (induction a b rule: same_cell.induct) auto

lemma same_row_eq: "same_row r s \<longleftrightarrow> r = s"
  by (simp add: same_row_def same_cell_eq[abs_def] list.rel_eq)

lemma list_ex_same_row: "list_ex (same_row r) seen \<longleftrightarrow> r \<in> set seen"
  by (auto simp: list_ex_iff same_row_eq)


lemma duplicated_scan_nth:
  "j < length rs \<Longrightarrow>
   duplicated_scan seen rs ! j \<longleftrightarrow> rs ! j \<in> set seen \<or> (\<exists>i<j. rs ! i = rs ! j)"
proof (induction rs arbitrary: seen j)
  case Nil
  then show ?case by simp
next
  case (Cons r rs)
  show ?case
  proof (cases j)
    case 0
    then show ?thesis by (simp add: list_ex_same_row)
  next
    case (Suc k)
    with Cons.prems have k: "k < length rs" by simp
    have ex: "(\<exists>i<Suc k. (r # rs) ! i = rs ! k) \<longleftrightarrow> r = rs ! k \<or> (\<exists>i<k. rs ! i = rs ! k)"
      by (auto simp: less_Suc_eq_0_disj)
    show ?thesis
      using Cons.IH[OF k, of seen] Cons.IH[OF k, of "r # seen"] Suc ex
      by (auto simp: list_ex_same_row)
  qed
qed

lemma count_duplicated_scan:
  "length (filter id (duplicated_scan seen rs)) + card (set rs - set seen) = length rs"
proof (induction rs arbitrary: seen)
  case Nil
  then show ?case by simp
next
  case (Cons r rs)
  show ?case
  proof (cases "r \<in> set seen")
    case True
    then have "set (r # rs) - set seen = set rs - set seen" by auto
    with Cons.IH[of seen] True show ?thesis by (simp add: list_ex_same_row)
  next
    case False
    have "set (r # rs) - set seen = insert r (set rs - set (r # seen))" using False by auto
    moreover have "r \<notin> set rs - set (r # seen)" by simp
    ultimately have "card (set (r # rs) - set seen) = Suc (card (set rs - set (r # seen)))"
      by (simp del: set_simps Diff_insert_absorb)
    with Cons.IH[of "r # seen"] False show ?thesis by (simp add: list_ex_same_row)
  qed
qed

lemma length_iterrows: "length (iterrows data) = row_count data"
  by (simp add: iterrows_def)



lemma null_sum_le: "null_sum c \<le> length (cells c)"
  by (simp add: null_sum_def)

lemma missing_names: "map fst (map (\<lambda>(name, c). (name, null_sum c)) data) = map fst data"
  by (induction data) auto

lemma wf_table_length: "wf_table data \<Longrightarrow> (name, c) \<in> set data \<Longrightarrow> length (cells c) = row_count data"
  by (auto simp: wf_table_def list_all_iff)

text \<open>
  Claim C6. \<^verbatim>\<open>check_missing_values\<close> never fails; its report has one entry per column,
  in column order, every count is at most the row count, and a frame without rows gives
  zero for every column.
\<close>

theorem check_missing_values_report:
  assumes "wf_table data"
  shows "\<exists>rep. check_missing_values data = Inr rep
           \<and> map fst rep = map fst data
           \<and> (\<forall>(name, n) \<in> set rep. n \<le> row_count data)
           \<and> (row_count data = 0 \<longrightarrow> (\<forall>(name, n) \<in> set rep. n = 0))"
proof -
  let ?rep = "map (\<lambda>(name, c). (name, null_sum c)) data"
  have bound: "n \<le> row_count data" if "(name, n) \<in> set ?rep" for name n
  proof -
    from that obtain c where c: "(name, c) \<in> set data" and n: "n = null_sum c" by auto
    from assms c have "length (cells c) = row_count data"
      by (rule wf_table_length)
    with n null_sum_le[of c] show ?thesis by simp
  qed
  have all: "\<forall>(name, n) \<in> set ?rep. n \<le> row_count data"
    using bound by blast
  have zero: "\<forall>(name, n) \<in> set ?rep. n = 0" if "row_count data = 0"
  proof -
    have "n = 0" if "(name, n) \<in> set ?rep" for name n
      using bound[OF that] \<open>row_count data = 0\<close> by simp
    then show ?thesis by blast
  qed
  show ?thesis
  proof (intro exI conjI impI)
    show "check_missing_values data = Inr ?rep"
      by (simp add: check_missing_values_def)
    show "map fst ?rep = map fst data"
      by (rule missing_names)
    show "\<forall>(name, n) \<in> set ?rep. n \<le> row_count data"
      by (rule all)
    show "\<forall>(name, n) \<in> set ?rep. n = 0" if "row_count data = 0"
      using that by (rule zero)
  qed
qed

theorem check_missing_values_report_witness:
  "wf_table [(''A'', Numeric [Some 1, Some 2, Some 2, None]),
             (''B'', Numeric [Some 10, Some 20, Some 20, Some 10])]
   \<and> check_missing_values [(''A'', Numeric [Some 1, Some 2, Some 2, None]),
             (''B'', Numeric [Some 10, Some 20, Some 20, Some 10])] = Inr [(''A'', 1), (''B'', 0)]
   \<and> wf_table [(''A'', Numeric []), (''B'', Object [])]
   \<and> row_count [(''A'', Numeric []), (''B'', Object [])] = 0
   \<and> check_missing_values [(''A'', Numeric []), (''B'', Object [])] = Inr [(''A'', 0), (''B'', 0)]"
proof -
  have wf1: "wf_table [(''A'', Numeric [Some 1, Some 2, Some 2, None]),
             (''B'', Numeric [Some 10, Some 20, Some 20, Some 10])]"
    by (simp add: wf_table_def row_count_def)
  have wf0: "wf_table [(''A'', Numeric []), (''B'', Object [])]"
    by (simp add: wf_table_def row_count_def)
  have r1: "check_missing_values [(''A'', Numeric [Some 1, Some 2, Some 2, None]),
             (''B'', Numeric [Some 10, Some 20, Some 20, Some 10])] = Inr [(''A'', 1), (''B'', 0)]"
    by (simp add: check_missing_values_def null_sum_def isnull_def)
  have rc0: "row_count [(''A'', Numeric []), (''B'', Object [])] = 0"
    by (simp add: row_count_def)
  from check_missing_values_report[OF wf0] rc0
  obtain rep where rep: "check_missing_values [(''A'', Numeric []), (''B'', Object [])] = Inr rep"
    and names: "map fst rep = [''A'', ''B'']" and z: "\<forall>(name, n) \<in> set rep. n = 0"
    by auto
  from names obtain a b where ab: "rep = [(''A'', a), (''B'', b)]"
    by (auto simp: map_eq_Cons_conv)
  with z have "rep = [(''A'', 0), (''B'', 0)]" by simp
  with rep wf1 wf0 r1 rc0 show ?thesis by simp
qed

text \<open>
  Claim C5. \<^verbatim>\<open>check_duplicates\<close> returns the number of rows minus the number of distinct
  rows; a row is marked exactly when an earlier row has the same cells at every position,
  so a first occurrence is never counted; a frame of at most one row gives 0.
\<close>

theorem check_duplicates_count:
  "check_duplicates data = Inr (row_count data - card (set (iterrows data)))
   \<and> length (iterrows data) = row_count data
   \<and> (\<forall>j<row_count data.
        duplicated data ! j \<longleftrightarrow> (\<exists>i<j. iterrows data ! i = iterrows data ! j))
   \<and> (row_count data \<le> 1 \<longrightarrow> check_duplicates data = Inr 0)"
proof -
  have len: "length (iterrows data) = row_count data"
    by (rule length_iterrows)
  have cnt: "check_duplicates data = Inr (row_count data - card (set (iterrows data)))"
    using count_duplicated_scan[of "[]" "iterrows data"]
    by (simp add: check_duplicates_def duplicated_def len)
  have flags: "\<forall>j<row_count data.
        duplicated data ! j \<longleftrightarrow> (\<exists>i<j. iterrows data ! i = iterrows data ! j)"
    using duplicated_scan_nth[of _ "iterrows data" "[]"] by (simp add: duplicated_def len)
  have small: "check_duplicates data = Inr 0" if "row_count data \<le> 1"
  proof (cases "iterrows data")
    case Nil
    with cnt len show ?thesis by simp
  next
    case (Cons r rs)
    from len Cons have "Suc (length rs) = row_count data" by simp
    with that have "length rs = 0" by arith
    then have "rs = []" by simp
    with Cons cnt len show ?thesis by simp
  qed
  from cnt len flags small show ?thesis by blast
qed

theorem check_duplicates_count_witness:
  "check_duplicates [(''A'', Numeric [Some 1, Some 2, Some 2, None]),
                     (''B'', Numeric [Some 10, Some 20, Some 20, Some 10])] = Inr (4 - 3)
   \<and> row_count [(''A'', Numeric [Some 7]), (''B'', Object [Some ''x''])] \<le> 1
   \<and> check_duplicates [(''A'', Numeric [Some 7]), (''B'', Object [Some ''x''])] = Inr 0"
proof -
  have rows: "iterrows [(''A'', Numeric [Some 1, Some 2, Some 2, None]),
                     (''B'', Numeric [Some 10, Some 20, Some 20, Some 10])]
     = [[Some (Num 1), Some (Num 10)], [Some (Num 2), Some (Num 20)],
        [Some (Num 2), Some (Num 20)], [None, Some (Num 10)]]"
    by (simp add: iterrows_def row_count_def upt_conv_Cons)
  have one: "row_count [(''A'', Numeric [Some 7]), (''B'', Object [Some ''x''])] \<le> 1"
    by (simp add: row_count_def)
  have three: "card {[Some (Num 1), Some (Num 10)], [Some (Num 2), Some (Num 20)],
        [None, Some (Num 10)]} = 3" by simp
  have c1: "check_duplicates [(''A'', Numeric [Some 1, Some 2, Some 2, None]),
                     (''B'', Numeric [Some 10, Some 20, Some 20, Some 10])] = Inr (4 - 3)"
    using check_duplicates_count[of "[(''A'', Numeric [Some 1, Some 2, Some 2, None]),
                     (''B'', Numeric [Some 10, Some 20, Some 20, Some 10])]", THEN conjunct1]
      three
    by (simp add: rows) (simp add: row_count_def)
  have c0: "check_duplicates [(''A'', Numeric [Some 7]), (''B'', Object [Some ''x''])] = Inr 0"
    using check_duplicates_count[of "[(''A'', Numeric [Some 7]), (''B'', Object [Some ''x''])]",
        THEN conjunct2, THEN conjunct2, THEN conjunct2] one
    by (rule mp)
  from c1 one c0 show ?thesis by blast
qed



section \<open>Properties of the outlier detector\<close>

subsection \<open>The report dict and the loop over the numeric columns\<close>

lemma set_setitem: "set (setitem k v d) \<subseteq> insert (k, v) (set d)"
  by (induction k v d rule: setitem.induct) (auto split: if_splits)

lemma keys_setitem: "fst ` set (setitem k v d) = insert k (fst ` set d)"
  by (induction k v d rule: setitem.induct) (force split: if_splits)+

lemma select_dtypes_number_iff:
  "(name, vs) \<in> set (select_dtypes_number data) \<longleftrightarrow> (name, Numeric vs) \<in> set data"
  by (induction data rule: select_dtypes_number.induct) auto

lemma outliers_loop_entries:
  "(col, idx) \<in> set (outliers_loop z_thresh cols outliers) \<Longrightarrow>
   (col, idx) \<in> set outliers
   \<or> (\<exists>vs. (col, vs) \<in> set cols \<and> idx = outlier_indices z_thresh vs \<and> idx \<noteq> [])"
proof (induction cols arbitrary: outliers)
  case Nil
  then show ?case by simp
next
  case (Cons c cols)
  obtain name vs where c: "c = (name, vs)" by (cases c)
  show ?case
  proof (cases "outlier_indices z_thresh vs = []")
    case True
    with Cons.prems c have "(col, idx) \<in> set (outliers_loop z_thresh cols outliers)"
      by simp
    from Cons.IH[OF this] show ?thesis by auto
  next
    case False
    with Cons.prems c
    have "(col, idx) \<in> set (outliers_loop z_thresh cols
             (setitem name (outlier_indices z_thresh vs) outliers))"
      by (simp add: Let_def)
    from Cons.IH[OF this] set_setitem[of name "outlier_indices z_thresh vs" outliers] c False
    show ?thesis by auto
  qed
qed

lemma outliers_loop_keys:
  "fst ` set (outliers_loop z_thresh cols outliers)
   = fst ` set outliers \<union> {col. \<exists>vs. (col, vs) \<in> set cols \<and> outlier_indices z_thresh vs \<noteq> []}"
proof (induction cols arbitrary: outliers)
  case Nil
  then show ?case by simp
next
  case (Cons c cols)
  obtain name vs where c: "c = (name, vs)" by (cases c)
  show ?case
  proof (cases "outlier_indices z_thresh vs = []")
    case True
    then show ?thesis using Cons.IH[of outliers] c by auto
  next
    case False
    then show ?thesis
      using Cons.IH[of "setitem name (outlier_indices z_thresh vs) outliers"] c
      by (auto simp: keys_setitem Let_def)
  qed
qed

lemma set_np_where: "set (np_where m) = {i. i < length m \<and> m ! i}"
  by (auto simp: np_where_def)

lemma sorted_np_where: "sorted_wrt (<) (np_where m)"
  by (simp add: np_where_def sorted_wrt_filter)

lemma length_zscore: "length (zscore xs) = length xs"
  by (simp add: zscore_def)

lemma length_dropna_zip:
  "length ls = length vs \<Longrightarrow> length (dropna (zip ls vs)) = length (filter (\<lambda>v. \<not> isnull v) vs)"
proof (induction vs arbitrary: ls)
  case Nil
  then show ?case by simp
next
  case (Cons v vs)
  then obtain l ls' where ls: "ls = l # ls'" by (cases ls) auto
  with Cons.prems have "length ls' = length vs" by simp
  from Cons.IH[OF this] ls show ?case by (cases v) (simp_all add: isnull_def)
qed

lemma length_dropna_getitem:
  "length (dropna (getitem vs)) = length (filter (\<lambda>v. \<not> isnull v) vs)"
  by (simp add: getitem_def length_dropna_zip)

lemma outlier_indices_bound:
  "i \<in> set (outlier_indices z_thresh vs) \<Longrightarrow> i < length (filter (\<lambda>v. \<not> isnull v) vs)"
  by (simp add: outlier_indices_def set_np_where np_abs_def length_zscore asanyarray_def
      length_dropna_getitem)

lemma sorted_outlier_indices: "sorted_wrt (<) (outlier_indices z_thresh vs)"
  by (simp add: outlier_indices_def sorted_np_where)

subsection \<open>Distinct keys, and the columns that are not keys\<close>

lemma distinct_setitem: "distinct (map fst d) \<Longrightarrow> distinct (map fst (setitem k v d))"
  by (induction k v d rule: setitem.induct) (auto simp: keys_setitem)

lemma distinct_outliers_loop:
  "distinct (map fst outliers) \<Longrightarrow> distinct (map fst (outliers_loop z_thresh cols outliers))"
proof (induction cols arbitrary: outliers)
  case Nil
  then show ?case by simp
next
  case (Cons c cols)
  obtain name vs where c: "c = (name, vs)" by (cases c)
  from Cons.prems have "distinct (map fst (setitem name (outlier_indices z_thresh vs) outliers))"
    by (rule distinct_setitem)
  with Cons.prems c show ?case
    by (simp add: Let_def Cons.IH)
qed

lemma np_where_empty:
  assumes "\<forall>b\<in>set m. \<not> b"
  shows "np_where m = []"
proof -
  have "\<not> m ! i" if "i < length m" for i
    using assms nth_mem[OF that] by blast
  then have "filter (\<lambda>i. m ! i) [0..<length m] = []"
    by (simp add: filter_empty_conv)
  then show ?thesis by (simp add: np_where_def)
qed

lemma outlier_indices_never:
  assumes "z_thresh = NaN \<or> z_thresh = PosInf"
  shows "outlier_indices z_thresh vs = []"
proof -
  have "\<not> np_gt z z_thresh" for z
    using assms by (cases z) auto
  then show ?thesis
    by (simp add: outlier_indices_def np_where_empty)
qed

lemma outliers_loop_never:
  "\<forall>vs. outlier_indices z_thresh vs = [] \<Longrightarrow> outliers_loop z_thresh cols outliers = outliers"
  by (induction cols arbitrary: outliers) auto

lemma wf_table_column_unique:
  assumes "wf_table data" "(col, c) \<in> set data" "(col, c') \<in> set data"
  shows "c = c'"
proof -
  from assms(1) have "distinct (map fst data)" by (simp add: wf_table_def)
  from this assms(2,3) show ?thesis by (rule eq_key_imp_eq_value)
qed

lemma check_outliers_key_absent:
  assumes "wf_table data" "(col, c) \<in> set data"
    and "\<And>vs. c = Numeric vs \<Longrightarrow> outlier_indices z_thresh vs = []"
  shows "col \<notin> fst ` set (outliers_loop z_thresh (select_dtypes_number data) [])"
proof
  assume "col \<in> fst ` set (outliers_loop z_thresh (select_dtypes_number data) [])"
  then obtain vs where vs: "(col, vs) \<in> set (select_dtypes_number data)"
    and ne: "outlier_indices z_thresh vs \<noteq> []"
    by (auto simp: outliers_loop_keys)
  from vs have "(col, Numeric vs) \<in> set data" by (simp add: select_dtypes_number_iff)
  with assms(1,2) have "c = Numeric vs" by (rule wf_table_column_unique)
  with assms(3) ne show False by simp
qed

subsection \<open>Worked examples\<close>

lemma sqrt16: "sqrt 16 = 4"
  using real_sqrt_abs[of 4] by simp

lemma ex_reduced: "reduced_sequence [None, Some 0, Some 0, Some 0, Some 0, Some 5] = [0, 0, 0, 0, 5]"
  by (simp add: asanyarray_def getitem_def upt_conv_Cons)

lemma ex_mean: "mean [0, 0, 0, 0, 5] = 1"
  by (simp add: mean_def)

lemma ex_std: "std [0, 0, 0, 0, 5] = 2"
  by (simp add: std_def ex_mean)

lemma ex_indices: "outlier_indices (Finite 1) [None, Some 0, Some 0, Some 0, Some 0, Some 5] = [4]"
  by (simp add: outlier_indices_def ex_reduced zscore_def ex_mean ex_std np_abs_def np_where_def
      upt_conv_Cons)

lemma ex_const_reduced: "reduced_sequence [Some 7, Some 7, Some 7, Some 7, Some 7, Some 7] = [7, 7, 7, 7, 7, 7]"
  by (simp add: asanyarray_def getitem_def upt_conv_Cons)

lemma ex_const_std: "std [7, 7, 7, 7, 7, 7] = 0"
  by (simp add: std_def mean_def)

lemma ex_const_indices:
  "outlier_indices z_thresh [Some 7, Some 7, Some 7, Some 7, Some 7, Some 7] = []"
  by (simp add: outlier_indices_def ex_const_reduced zscore_def ex_const_std np_abs_def
      np_where_def upt_conv_Cons)

lemma ex_report:
  "check_outliers (Finite 1)
     [(''A'', Numeric [None, Some 0, Some 0, Some 0, Some 0, Some 5]),
      (''B'', Numeric [Some 7, Some 7, Some 7, Some 7, Some 7, Some 7]),
      (''C'', Object [Some ''x'', Some ''x'', Some ''y'', Some ''y'', Some ''z'', None])]
   = Inr [(''A'', [4])]"
  by (simp add: check_outliers_def ex_indices ex_const_indices)

lemma ex_wf:
  "wf_table
     [(''A'', Numeric [None, Some 0, Some 0, Some 0, Some 0, Some 5]),
      (''B'', Numeric [Some 7, Some 7, Some 7, Some 7, Some 7, Some 7]),
      (''C'', Object [Some ''x'', Some ''x'', Some ''y'', Some ''y'', Some ''z'', None])]"
  by (simp add: wf_table_def row_count_def)

subsection \<open>The claims about the outlier detector\<close>

text \<open>
  Claim C10. Every list of indices in the report of \<^verbatim>\<open>check_outliers\<close> belongs to a numeric
  column of that name, is strictly ascending, and each index is below the number of
  non-absent values of the column: it is a position in the reduced sequence.
\<close>

theorem outlier_indices_reduced_positions:
  assumes "check_outliers z_thresh data = Inr rep" and "(col, idx) \<in> set rep"
  shows "\<exists>vs. (col, Numeric vs) \<in> set data \<and> idx = outlier_indices z_thresh vs
           \<and> sorted_wrt (<) idx
           \<and> (\<forall>i\<in>set idx. i < length (filter (\<lambda>v. \<not> isnull v) vs))"
proof -
  from assms have "(col, idx) \<in> set (outliers_loop z_thresh (select_dtypes_number data) [])"
    by (simp add: check_outliers_def)
  from outliers_loop_entries[OF this]
  obtain vs where vs: "(col, vs) \<in> set (select_dtypes_number data)"
    and idx: "idx = outlier_indices z_thresh vs"
    by auto
  from vs have "(col, Numeric vs) \<in> set data"
    by (simp add: select_dtypes_number_iff)
  moreover have "sorted_wrt (<) idx"
    unfolding idx by (rule sorted_outlier_indices)
  moreover have "\<forall>i\<in>set idx. i < length (filter (\<lambda>v. \<not> isnull v) vs)"
    unfolding idx using outlier_indices_bound by blast
  ultimately show ?thesis using idx by blast
qed

theorem outlier_indices_reduced_positions_witness:
  "check_outliers (Finite 1)
     [(''A'', Numeric [None, Some 0, Some 0, Some 0, Some 0, Some 5]),
      (''B'', Numeric [Some 7, Some 7, Some 7, Some 7, Some 7, Some 7]),
      (''C'', Object [Some ''x'', Some ''x'', Some ''y'', Some ''y'', Some ''z'', None])]
   = Inr [(''A'', [4])]
   \<and> (''A'', [4]) \<in> set [(''A'', [4::nat])]
   \<and> sorted_wrt (<) [4::nat]
   \<and> 4 < length (filter (\<lambda>v. \<not> isnull v) [None, Some 0, Some 0, Some 0, Some 0, Some (5::real)])"
proof -
  have m: "(''A'', [4]) \<in> set [(''A'', [4::nat])]" by simp
  from outlier_indices_reduced_positions[OF ex_report m]
  obtain vs where mem: "(''A'', Numeric vs) \<in> set
     [(''A'', Numeric [None, Some 0, Some 0, Some 0, Some 0, Some 5]),
      (''B'', Numeric [Some 7, Some 7, Some 7, Some 7, Some 7, Some 7]),
      (''C'', Object [Some ''x'', Some ''x'', Some ''y'', Some ''y'', Some ''z'', None])]"
    and bound: "\<forall>i\<in>set [4::nat]. i < length (filter (\<lambda>v. \<not> isnull v) vs)"
    by blast
  from mem have "vs = [None, Some 0, Some 0, Some 0, Some 0, Some 5]" by simp
  with bound ex_report show ?thesis by simp
qed

text \<open>
  Claim C7. No key of the report of \<^verbatim>\<open>check_outliers\<close> is bound to the empty list, the keys
  are distinct, and a column that contributes no outlier (a numeric column without one,
  or a column that is not numeric) is not a key.
\<close>

theorem outlier_report_no_empty_entries:
  assumes "check_outliers z_thresh data = Inr rep"
  shows "(\<forall>(col, idx) \<in> set rep. idx \<noteq> [])
         \<and> distinct (map fst rep)
         \<and> (\<forall>col vs. wf_table data \<and> (col, Numeric vs) \<in> set data
                \<and> outlier_indices z_thresh vs = [] \<longrightarrow> col \<notin> fst ` set rep)
         \<and> (\<forall>col vs. wf_table data \<and> (col, Object vs) \<in> set data \<longrightarrow> col \<notin> fst ` set rep)"
proof -
  from assms have rep: "rep = outliers_loop z_thresh (select_dtypes_number data) []"
    by (simp add: check_outliers_def)
  have nonempty: "\<forall>(col, idx) \<in> set rep. idx \<noteq> []"
  proof (intro ballI, clarify)
    fix col assume "(col, []) \<in> set rep"
    with rep outliers_loop_entries[of col "[]" z_thresh "select_dtypes_number data" "[]"]
    show False by simp
  qed
  have keys: "distinct (map fst rep)"
    unfolding rep by (rule distinct_outliers_loop) simp
  have num: "col \<notin> fst ` set rep"
    if "wf_table data \<and> (col, Numeric vs) \<in> set data \<and> outlier_indices z_thresh vs = []"
    for col vs
    unfolding rep using that by (intro check_outliers_key_absent[of data col "Numeric vs"]) auto
  have obj: "col \<notin> fst ` set rep" if "wf_table data \<and> (col, Object vs) \<in> set data" for col vs
    unfolding rep using that by (intro check_outliers_key_absent[of data col "Object vs"]) auto
  from nonempty keys num obj show ?thesis by blast
qed

theorem outlier_report_no_empty_entries_witness:
  "check_outliers (Finite 1)
     [(''A'', Numeric [None, Some 0, Some 0, Some 0, Some 0, Some 5]),
      (''B'', Numeric [Some 7, Some 7, Some 7, Some 7, Some 7, Some 7]),
      (''C'', Object [Some ''x'', Some ''x'', Some ''y'', Some ''y'', Some ''z'', None])]
   = Inr [(''A'', [4])]
   \<and> wf_table
     [(''A'', Numeric [None, Some 0, Some 0, Some 0, Some 0, Some 5]),
      (''B'', Numeric [Some 7, Some 7, Some 7, Some 7, Some 7, Some 7]),
      (''C'', Object [Some ''x'', Some ''x'', Some ''y'', Some ''y'', Some ''z'', None])]
   \<and> outlier_indices (Finite 1) [Some 7, Some 7, Some 7, Some 7, Some 7, Some 7] = []
   \<and> [4::nat] \<noteq> []
   \<and> distinct (map fst [(''A'', [4::nat])])
   \<and> ''B'' \<notin> fst ` set [(''A'', [4::nat])]
   \<and> ''C'' \<notin> fst ` set [(''A'', [4::nat])]"
  using outlier_report_no_empty_entries[OF ex_report] ex_report ex_wf ex_const_indices
  by simp

text \<open>
  Claim C3. (as amended) \<^verbatim>\<open>check_outliers\<close> does not validate \<^verbatim>\<open>z_thresh\<close>: for every
  threshold, positive or not, finite or not, and every table it returns a report and never
  fails with InvalidParameter; with a NaN or infinite positive threshold the report is empty.
\<close>

theorem check_outliers_never_fails:
  "(\<exists>rep. check_outliers z_thresh data = Inr rep)
   \<and> check_outliers z_thresh data \<noteq> Inl InvalidParameter
   \<and> check_outliers NaN data = Inr []
   \<and> check_outliers PosInf data = Inr []"
proof -
  have "outliers_loop NaN cols [] = []" for cols
    by (rule outliers_loop_never) (simp add: outlier_indices_never)
  moreover have "outliers_loop PosInf cols [] = []" for cols
    by (rule outliers_loop_never) (simp add: outlier_indices_never)
  ultimately show ?thesis by (simp add: check_outliers_def)
qed

text \<open>
  The claim as stated fails at threshold 0: the call returns a report, in which every
  value of the column \<open>[1, 3]\<close> is flagged.
\<close>

theorem nonpositive_threshold_counterexample:
  "\<not> (0::real) < 0
   \<and> check_outliers (Finite 0) [(''A'', Numeric [Some 1, Some 3])] = Inr [(''A'', [0, 1])]
   \<and> check_outliers (Finite 0) [(''A'', Numeric [Some 1, Some 3])] \<noteq> Inl InvalidParameter"
proof -
  have r: "reduced_sequence [Some 1, Some 3] = [1, 3]"
    by (simp add: asanyarray_def getitem_def upt_conv_Cons)
  have m: "mean [1, 3] = 2" by (simp add: mean_def)
  have s: "std [1, 3] = 1" by (simp add: std_def m)
  have "outlier_indices (Finite 0) [Some 1, Some 3] = [0, 1]"
    by (simp add: outlier_indices_def r zscore_def m s np_abs_def np_where_def upt_conv_Cons)
  then show ?thesis by (simp add: check_outliers_def)
qed

text \<open>
  Claim C1. The index reported for an outlier is meant to be its row in the table. On a column
  with an absent entry before the outlier the code reports the position in the reduced
  sequence instead: below, the value 17 stands in row 17, the report names index 16, and
  row 16 holds an ordinary 0.
\<close>

theorem outlier_index_shifted_by_absent_entry:
  "check_outliers (Finite 3) [(''A'', Numeric [None, Some 0, Some 0, Some 0, Some 0, Some 0, Some 0, Some 0, Some 0, Some 0, Some 0, Some 0, Some 0, Some 0, Some 0, Some 0, Some 0, Some 17])] = Inr [(''A'', [16])]
   \<and> map fst (dropna (getitem [None, Some 0, Some 0, Some 0, Some 0, Some 0, Some 0, Some 0, Some 0, Some 0, Some 0, Some 0, Some 0, Some 0, Some 0, Some 0, Some 0, Some 17])) ! 16 = 17
   \<and> [None, Some 0, Some 0, Some 0, Some 0, Some 0, Some 0, Some 0, Some 0, Some 0, Some 0, Some 0, Some 0, Some 0, Some 0, Some 0, Some 0, Some (17::real)] ! 16 = Some 0
   \<and> [None, Some 0, Some 0, Some 0, Some 0, Some 0, Some 0, Some 0, Some 0, Some 0, Some 0, Some 0, Some 0, Some 0, Some 0, Some 0, Some 0, Some (17::real)] ! 17 = Some 17"
proof -
  have r: "reduced_sequence [None, Some 0, Some 0, Some 0, Some 0, Some 0, Some 0, Some 0, Some 0, Some 0, Some 0, Some 0, Some 0, Some 0, Some 0, Some 0, Some 0, Some 17] = [0, 0, 0, 0, 0, 0, 0, 0, 0, 0, 0, 0, 0, 0, 0, 0, 17]"
    by (simp add: asanyarray_def getitem_def upt_conv_Cons)
  have l: "map fst (dropna (getitem [None, Some 0, Some 0, Some 0, Some 0, Some 0, Some 0, Some 0, Some 0, Some 0, Some 0, Some 0, Some 0, Some 0, Some 0, Some 0, Some 0, Some 17])) ! 16 = 17"
    by (simp add: getitem_def upt_conv_Cons)
  have m: "mean [0, 0, 0, 0, 0, 0, 0, 0, 0, 0, 0, 0, 0, 0, 0, 0, 17] = 1"
    by (simp add: mean_def)
  have s: "std [0, 0, 0, 0, 0, 0, 0, 0, 0, 0, 0, 0, 0, 0, 0, 0, 17] = 4"
    by (simp add: std_def m sqrt16)
  have "outlier_indices (Finite 3) [None, Some 0, Some 0, Some 0, Some 0, Some 0, Some 0, Some 0, Some 0, Some 0, Some 0, Some 0, Some 0, Some 0, Some 0, Some 0, Some 0, Some 17] = [16]"
    by (simp add: outlier_indices_def r zscore_def m s np_abs_def np_where_def upt_conv_Cons)
  with l show ?thesis by (simp add: check_outliers_def)
qed

section \<open>Properties of the report\<close>

text \<open>
  Claim C8. The text of \<^verbatim>\<open>generate_report\<close> is the title, then the section Missing Values, then
  the line Duplicate Rows, then the section Outliers, in this order; for the missing-value
  report \<open>{A: 1, B: 0}\<close>, one duplicate and no outlier it ends with the line
  \<open>Duplicate Rows: 1\<close>, an empty line and the header \<open>Outliers:\<close> with nothing beneath.
\<close>

theorem generate_report_sections:
  "(\<exists>title missing dups entries.
      generate_report to_string missing_values duplicate_count outliers
        = Inr (title @ ''Missing Values:\<newline>'' @ missing
                 @ ''Duplicate Rows: '' @ dups
                 @ ''Outliers:\<newline>'' @ entries)
      \<and> title = ''Data Integrity Report\<newline>=====================\<newline>''
      \<and> missing = to_string missing_values @ ''\<newline>\<newline>''
      \<and> dups = str_nat duplicate_count @ ''\<newline>\<newline>''
      \<and> entries = concat (map outlier_line outliers))
   \<and> (\<exists>pre. generate_report to_string [(''A'', 1), (''B'', 0)] 1 []
          = Inr (pre @ ''\<newline>Duplicate Rows: 1\<newline>\<newline>Outliers:\<newline>''))"
proof
  show "\<exists>title missing dups entries.
      generate_report to_string missing_values duplicate_count outliers
        = Inr (title @ ''Missing Values:\<newline>'' @ missing
                 @ ''Duplicate Rows: '' @ dups
                 @ ''Outliers:\<newline>'' @ entries)
      \<and> title = ''Data Integrity Report\<newline>=====================\<newline>''
      \<and> missing = to_string missing_values @ ''\<newline>\<newline>''
      \<and> dups = str_nat duplicate_count @ ''\<newline>\<newline>''
      \<and> entries = concat (map outlier_line outliers)"
    by (simp add: generate_report_def del: str_nat.simps)
next
  show "\<exists>pre. generate_report to_string [(''A'', 1), (''B'', 0)] 1 []
          = Inr (pre @ ''\<newline>Duplicate Rows: 1\<newline>\<newline>Outliers:\<newline>'')"
    by (rule exI[where x = "''Data Integrity Report\<newline>=====================\<newline>Missing Values:\<newline>''
               @ to_string [(''A'', 1), (''B'', 0)] @ ''\<newline>''"])
       (simp add: generate_report_def digit_def)
qed

end
